theory Spec2Isabelle
  imports Complex_Main "HOL-Library.Sublist"
begin

section \<open>Data model\<close>

text \<open>
  The browser's \<open>File\<close> object as the page uses it: a name, a size in bytes and
  the content behind it (\<open>size\<close> is a constant of HOL, so the field is
  \<open>size_bytes\<close>). The page only ever compares name and size.
\<close>

record selected_file =
  name :: string
  size_bytes :: nat
  content :: string

text \<open>
  The two declared types of the page: \<open>Omit<ExtractedInvoiceData, 'fileName'>\<close>, which
  the gateway is declared to return, and \<open>ExtractedInvoiceData\<close> itself, which adds
  \<open>fileName\<close>.
\<close>

record invoice_fields =
  invoiceNumber :: string
  companyNumber :: string
  date :: string
  totalAmount :: string

record ExtractedInvoiceData = invoice_fields +
  fileName :: string

text \<open>
  The four pieces of React state of the \<open>Home\<close> component. \<open>extractedData\<close> is
  declared as \<open>ExtractedInvoiceData[]\<close>, but nothing checks what \<open>processInvoices\<close>
  stores there, so the type of its elements is a parameter of the state: the export
  serializer is modelled at the declared type, the batch orchestrator at the objects it
  really builds.
\<close>

record 'r ui_state =
  selectedFiles :: "selected_file list"
  extractedData :: "'r list"
  isLoading :: bool
  error :: string

section \<open>Sanitizer\<close>

text \<open>The character class \<open>\d\<close> of a JavaScript regular expression; \<open>\D\<close> is its complement.\<close>

definition is_digit :: "char \<Rightarrow> bool" where
  "is_digit c = (c \<in> set ''0123456789'')"

text \<open>
  \<open>s.replace(/\D+/g, repl)\<close>: the global scan from the left. Where a maximal run of
  one or more non-digits starts, the run is replaced by \<open>repl\<close> and the scan goes on
  behind it; a digit is copied.
\<close>

function replace_nondigit_runs :: "string \<Rightarrow> string \<Rightarrow> string" where
  "replace_nondigit_runs repl [] = []"
| "replace_nondigit_runs repl (c # cs) =
     (if is_digit c then c # replace_nondigit_runs repl cs
      else repl @ replace_nondigit_runs repl (dropWhile (\<lambda>x. \<not> is_digit x) cs))"
  by pat_completeness auto
termination
  by (relation "measure (\<lambda>(repl, s). length s)")
     (auto simp: length_dropWhile_le less_Suc_eq_le)

text \<open>
  \<open>raw || ''\<close>: an absent argument (\<open>undefined\<close> or \<open>null\<close>, here \<open>None\<close>) and the
  empty string are both falsy and give the empty string.
\<close>

definition or_empty :: "string option \<Rightarrow> string" where
  "or_empty raw = (case raw of None \<Rightarrow> [] | Some s \<Rightarrow> (if s = [] then [] else s))"

definition sanitizeInvoiceNumber :: "string option \<Rightarrow> string" where
  "sanitizeInvoiceNumber raw = replace_nondigit_runs [] (or_empty raw)"

section \<open>File selection\<close>

text \<open>
  The decimal rendering of a number inside a template literal, for the counts the cap
  message interpolates.
\<close>

definition digit_char :: "nat \<Rightarrow> char" where
  "digit_char d = ''0123456789'' ! (d mod 10)"

fun string_of_nat :: "nat \<Rightarrow> string" where
  "string_of_nat n =
     (if n < 10 then [digit_char n] else string_of_nat (n div 10) @ [digit_char (n mod 10)])"

declare string_of_nat.simps [simp del]

definition cap_error_message :: "nat \<Rightarrow> nat \<Rightarrow> string" where
  "cap_error_message added current =
     ''Cannot add '' @ string_of_nat added
     @ '' file(s). Maximum of 10 files allowed. Currently have ''
     @ string_of_nat current @ '' files selected.''"

text \<open>
  The filter of \<open>handleFileSelection\<close>: a chosen file is kept unless some selected
  file has the same name and the same size.
\<close>

definition filesToAdd :: "selected_file list \<Rightarrow> selected_file list \<Rightarrow> selected_file list" where
  "filesToAdd selected newFiles =
     filter (\<lambda>newFile. \<not> list_ex (\<lambda>existingFile.
        name existingFile = name newFile \<and> size_bytes existingFile = size_bytes newFile)
          selected) newFiles"

text \<open>
  \<open>handleFileSelection\<close> on the change event of the file input. The argument is
  \<open>event.target.files\<close>: \<open>None\<close> for \<open>null\<close>, otherwise the chosen files in order.
  Resetting the input element's value touches no state of the component.
\<close>

definition handleFileSelection ::
    "selected_file list option \<Rightarrow> 'r ui_state \<Rightarrow> 'r ui_state" where
  "handleFileSelection files st =
     (case files of
        None \<Rightarrow> st
      | Some newFiles \<Rightarrow>
          if length newFiles > 0 then
            (let totalFilesAfterAddition = length (selectedFiles st) + length newFiles in
             if totalFilesAfterAddition > 10 then
               st\<lparr>error := cap_error_message (length newFiles) (length (selectedFiles st))\<rparr>
             else
               (let toAdd = filesToAdd (selectedFiles st) newFiles in
                if length toAdd > 0 then
                  st\<lparr>selectedFiles := selectedFiles st @ toAdd, error := []\<rparr>
                else st))
          else st)"

text \<open>\<open>removeFile\<close>: drops the entry at the given index and clears the error.\<close>

definition removeFile :: "nat \<Rightarrow> 'r ui_state \<Rightarrow> 'r ui_state" where
  "removeFile indexToRemove st =
     st\<lparr>selectedFiles :=
          map snd (filter (\<lambda>(index, f). index \<noteq> indexToRemove)
                     (zip [0 ..< length (selectedFiles st)] (selectedFiles st))),
        error := []\<rparr>"

text \<open>The pair by which the selection tells files apart.\<close>

definition file_key :: "selected_file \<Rightarrow> string \<times> nat" where
  "file_key f = (name f, size_bytes f)"

text \<open>Concrete files for the examples below.\<close>

definition mk_file :: "string \<Rightarrow> nat \<Rightarrow> selected_file" where
  "mk_file n s = \<lparr>name = n, size_bytes = s, content = []\<rparr>"

definition numbered_files :: "nat \<Rightarrow> selected_file list" where
  "numbered_files k = map (\<lambda>i. mk_file (string_of_nat i @ ''.jpg'') (100 + i)) [0 ..< k]"

definition initial_state :: "ExtractedInvoiceData ui_state" where
  "initial_state = \<lparr>selectedFiles = [], extractedData = [], isLoading = False, error = []\<rparr>"

section \<open>JavaScript values\<close>

text \<open>
  The values \<open>JSON.parse\<close> yields, and \<open>undefined\<close> for a property that is not
  there. A number is given by its value (only whether it is zero matters below; a
  literal that overflows to \<open>Infinity\<close> behaves as any non-zero number). An object is
  the list of its properties in insertion order; its keys are distinct. JavaScript
  itself enumerates keys that are array indices first; the page reads properties by
  name only, and no object written out below has such a key.
\<close>

datatype js_value =
    JUndefined
  | JNull
  | JBool bool
  | JNumber real
  | JString string
  | JArray "js_value list"
  | JObject "(string \<times> js_value) list"

type_synonym js_object = "(string \<times> js_value) list"

datatype js_error = TypeError

text \<open>Truthiness, as \<open>||\<close> and \<open>if\<close> test it.\<close>

fun truthy :: "js_value \<Rightarrow> bool" where
  "truthy JUndefined = False"
| "truthy JNull = False"
| "truthy (JBool b) = b"
| "truthy (JNumber n) = (n \<noteq> 0)"
| "truthy (JString s) = (s \<noteq> [])"
| "truthy (JArray xs) = True"
| "truthy (JObject ps) = True"

text \<open>
  Reading a property (\<open>undefined\<close> when missing) and writing one: an existing key keeps
  its place, a new key goes to the end.
\<close>

definition obj_get :: "js_object \<Rightarrow> string \<Rightarrow> js_value" where
  "obj_get obj k = (case map_of obj k of Some v \<Rightarrow> v | None \<Rightarrow> JUndefined)"

definition obj_set :: "string \<Rightarrow> js_value \<Rightarrow> js_object \<Rightarrow> js_object" where
  "obj_set k v obj =
     (if k \<in> fst ` set obj
      then map (\<lambda>(k', v'). if k' = k then (k', v) else (k', v')) obj
      else obj @ [(k, v)])"

text \<open>
  The own enumerable properties that an object spread \<open>...v\<close> copies: those of an
  object, the indices of an array or of a string, none for the other values.
\<close>

fun own_properties :: "js_value \<Rightarrow> (string \<times> js_value) list" where
  "own_properties (JObject ps) = ps"
| "own_properties (JArray xs) = zip (map string_of_nat [0 ..< length xs]) xs"
| "own_properties (JString s) =
     zip (map string_of_nat [0 ..< length s]) (map (\<lambda>c. JString [c]) s)"
| "own_properties v = []"

text \<open>\<open>{ ...obj, ...v }\<close> for an object literal \<open>obj\<close> already built.\<close>

definition spread_into :: "js_object \<Rightarrow> js_value \<Rightarrow> js_object" where
  "spread_into obj v = foldl (\<lambda>acc (k, x). obj_set k x acc) obj (own_properties v)"

text \<open>
  \<open>sanitizeInvoiceNumber\<close> as the page calls it at run time, on whatever value the
  property holds. A falsy value is replaced by the empty string; a string is scanned;
  any other truthy value has no \<open>replace\<close> to call, and the call throws.
\<close>

definition sanitizeInvoiceNumber_js :: "js_value \<Rightarrow> js_error + string" where
  "sanitizeInvoiceNumber_js raw =
     (case raw of
        JString s \<Rightarrow> Inr (sanitizeInvoiceNumber (Some s))
      | _ \<Rightarrow> if truthy raw then Inl TypeError else Inr (sanitizeInvoiceNumber None))"

section \<open>Extraction gateway\<close>

text \<open>
  What \<open>extractInvoiceData\<close> observes of the reply of \<open>/api/extract\<close>: the status,
  the body as \<open>response.text()\<close> gives it, and the body as \<open>response.json()\<close> gives
  it, \<open>None\<close> when that call rejects or yields nothing to read a property of. Of the
  JSON envelope the function reads one path,
  \<open>candidates?.[0]?.content?.parts?.[0]?.text\<close> (\<open>undefined\<close> when a link is
  missing), and hands what it finds there to \<open>JSON.parse\<close>; \<open>parsed\<close> is the outcome
  of that call on \<open>candidate_text\<close>, \<open>None\<close> when it throws. The parsed value is
  returned as it is: the declared result type is not checked at run time.
\<close>

record envelope =
  candidate_text :: js_value
  parsed :: "js_value option"

record response =
  status :: nat
  body_text :: string
  body_json :: "envelope option"

datatype fetch_result = NetworkError | Response response

datatype gateway_error =
    FetchRejected
  | ServerExtractionFailed string
  | BodyNotJson
  | NoStructuredResult
  | CandidateNotJson

text \<open>\<open>response.ok\<close>: the status is in the range 200 to 299.\<close>

definition response_ok :: "response \<Rightarrow> bool" where
  "response_ok r = (200 \<le> status r \<and> status r \<le> 299)"

text \<open>
  \<open>extractInvoiceData\<close>: one POST carrying the payload, no retry. Every \<open>throw\<close> and
  every rejected \<open>await\<close> is an \<open>Inl\<close>.
\<close>

definition extractInvoiceData ::
    "(string \<Rightarrow> fetch_result) \<Rightarrow> string \<Rightarrow> gateway_error + js_value" where
  "extractInvoiceData fetch base64ImageData =
     (case fetch base64ImageData of
        NetworkError \<Rightarrow> Inl FetchRejected
      | Response r \<Rightarrow>
          if \<not> response_ok r then
            Inl (ServerExtractionFailed (''Server extraction failed: '' @ body_text r))
          else
            (case body_json r of
               None \<Rightarrow> Inl BodyNotJson
             | Some result \<Rightarrow>
                 if truthy (candidate_text result) then
                   (case parsed result of
                      None \<Rightarrow> Inl CandidateNotJson
                    | Some data \<Rightarrow> Inr data)
                 else Inl NoStructuredResult))"

section \<open>Batch orchestrator\<close>

text \<open>\<open>s.split(sep)\<close> for a one-character separator, and indexing that may miss.\<close>

fun split_on :: "char \<Rightarrow> string \<Rightarrow> string list" where
  "split_on sep [] = [[]]"
| "split_on sep (c # cs) =
     (if c = sep then [] # split_on sep cs
      else (case split_on sep cs of [] \<Rightarrow> [[c]] | piece # pieces \<Rightarrow> (c # piece) # pieces))"

definition element_at :: "'a list \<Rightarrow> nat \<Rightarrow> 'a option" where
  "element_at xs i = (if i < length xs then Some (xs ! i) else None)"

text \<open>
  What the \<open>FileReader\<close> of one file does: it fires \<open>onerror\<close>, or \<open>onload\<close> with
  \<open>event.target?.result\<close>, the data URL or nothing. With the reply of the gateway this
  is the environment of one per-file task.
\<close>

datatype read_event = OnError | OnLoad "string option"

record task_env =
  reader :: read_event
  fetch :: "string \<Rightarrow> fetch_result"

text \<open>\<open>(event.target?.result as string)?.split(',')[1]\<close>\<close>

definition base64_of :: "string option \<Rightarrow> string option" where
  "base64_of result =
     (case result of None \<Rightarrow> None | Some url \<Rightarrow> element_at (split_on CHR '','' url) 1)"

datatype 'a promise = Pending | Fulfilled 'a | Rejected string

text \<open>The object literal of the three failure paths.\<close>

definition error_record :: "string \<Rightarrow> js_object" where
  "error_record fname =
     [(''fileName'', JString fname), (''invoiceNumber'', JString ''Error''),
      (''companyNumber'', JString ''Error''), (''date'', JString ''Error''),
      (''totalAmount'', JString ''Error'')]"

text \<open>
  The promise \<open>processInvoices\<close> creates for one file, as settled by the handler that
  the reader fires: \<open>onload\<close> with its \<open>try\<close>/\<open>catch\<close> around the gateway call, or
  \<open>onerror\<close>. On success it resolves with \<open>{ fileName: file.name, ...data }\<close>: the
  properties of \<open>data\<close> are copied after \<open>fileName\<close> is set.
\<close>

definition processingPromise :: "selected_file \<Rightarrow> task_env \<Rightarrow> js_object promise" where
  "processingPromise file env =
     (case reader env of
        OnLoad result \<Rightarrow>
          (case base64_of result of
             Some base64ImageData \<Rightarrow>
               if base64ImageData \<noteq> [] then
                 (case extractInvoiceData (fetch env) base64ImageData of
                    Inr data \<Rightarrow>
                      Fulfilled (spread_into [(''fileName'', JString (name file))] data)
                  | Inl err \<Rightarrow> Fulfilled (error_record (name file)))
               else Fulfilled (error_record (name file))
           | None \<Rightarrow> Fulfilled (error_record (name file)))
      | OnError \<Rightarrow> Fulfilled (error_record (name file)))"

text \<open>
  \<open>Promise.all\<close> over the current states of its inputs: rejected once an input is
  rejected, fulfilled with the values in the order of the inputs once all are
  fulfilled, pending otherwise. It is consulted after each single settlement (see
  \<open>task_settles\<close>), so at most one input is rejected when it first leaves the pending
  state.
\<close>

fun promise_all :: "'a promise list \<Rightarrow> 'a list promise" where
  "promise_all [] = Fulfilled []"
| "promise_all (Rejected e # ps) = Rejected e"
| "promise_all (Pending # ps) =
     (case promise_all ps of Rejected e \<Rightarrow> Rejected e | _ \<Rightarrow> Pending)"
| "promise_all (Fulfilled v # ps) =
     (case promise_all ps of
        Fulfilled vs \<Rightarrow> Fulfilled (v # vs)
      | Pending \<Rightarrow> Pending
      | Rejected e \<Rightarrow> Rejected e)"

definition resetUI :: "'r ui_state \<Rightarrow> 'r ui_state" where
  "resetUI st = st\<lparr>error := [], extractedData := [], isLoading := True\<rparr>"

text \<open>
  A run of \<open>processInvoices\<close> in flight: the component state, the files its closure
  holds, the per-file promises by position, and whether the \<open>await\<close> on their join is
  still suspended.
\<close>

record run_state =
  ui :: "js_object ui_state"
  batch :: "selected_file list"
  slots :: "js_object promise list"
  awaiting :: bool

text \<open>\<open>processInvoices\<close> up to its \<open>await\<close>.\<close>

definition processInvoices_start :: "js_object ui_state \<Rightarrow> run_state" where
  "processInvoices_start st =
     (if length (selectedFiles st) = 0 then
        \<lparr>ui = st\<lparr>error := ''No files selected.''\<rparr>, batch = [], slots = [], awaiting = False\<rparr>
      else
        \<lparr>ui = resetUI st, batch = selectedFiles st,
         slots = map (\<lambda>file. Pending) (selectedFiles st), awaiting = True\<rparr>)"

text \<open>\<open>xs.map(f)\<close> for a callback that may throw: the first throw ends the call.\<close>

fun map_throwing :: "('x \<Rightarrow> 'err + 'y) \<Rightarrow> 'x list \<Rightarrow> 'err + 'y list" where
  "map_throwing f [] = Inr []"
| "map_throwing f (x # xs) =
     (case f x of
        Inl e \<Rightarrow> Inl e
      | Inr y \<Rightarrow> (case map_throwing f xs of Inl e \<Rightarrow> Inl e | Inr ys \<Rightarrow> Inr (y # ys)))"

text \<open>
  The callback of the sanitizer pass,
  \<open>r => ({ ...r, invoiceNumber: sanitizeInvoiceNumber(r.invoiceNumber) })\<close>.
\<close>

definition sanitize_result :: "js_object \<Rightarrow> js_error + js_object" where
  "sanitize_result r =
     (case sanitizeInvoiceNumber_js (obj_get r ''invoiceNumber'') of
        Inl e \<Rightarrow> Inl e
      | Inr digitsOnly \<Rightarrow> Inr (obj_set ''invoiceNumber'' (JString digitsOnly) r))"

text \<open>
  \<open>processInvoices\<close> from its \<open>await\<close> on: the \<open>try\<close>, \<open>catch\<close> and \<open>finally\<close> blocks.
  The \<open>catch\<close> is reached when the join is rejected and when the sanitizer pass throws.
\<close>

definition processInvoices_resume ::
    "js_object list promise \<Rightarrow> js_object ui_state \<Rightarrow> js_object ui_state" where
  "processInvoices_resume joined st =
     (case joined of
        Fulfilled results \<Rightarrow>
          (case map_throwing sanitize_result results of
             Inr sanitizedResults \<Rightarrow>
               (st\<lparr>extractedData := sanitizedResults\<rparr>)\<lparr>isLoading := False\<rparr>
           | Inl err \<Rightarrow>
               (st\<lparr>error :=
                  ''A critical error occurred while processing files. Please check the console.''\<rparr>)
                 \<lparr>isLoading := False\<rparr>)
      | Rejected err \<Rightarrow>
          (st\<lparr>error :=
             ''A critical error occurred while processing files. Please check the console.''\<rparr>)
            \<lparr>isLoading := False\<rparr>
      | Pending \<Rightarrow> st)"

text \<open>
  One event of the loop: the task at position \<open>i\<close> settles its promise. A promise
  settles once, so an index out of range or already settled changes nothing. When the
  join settles with it, the suspended \<open>processInvoices\<close> resumes.
\<close>

definition task_settles :: "(nat \<Rightarrow> task_env) \<Rightarrow> nat \<Rightarrow> run_state \<Rightarrow> run_state" where
  "task_settles env i rs =
     (if i < length (slots rs) \<and> slots rs ! i = Pending then
        (let slots' = (slots rs)[i := processingPromise (batch rs ! i) (env i)] in
         if awaiting rs \<and> promise_all slots' \<noteq> Pending then
           rs\<lparr>ui := processInvoices_resume (promise_all slots') (ui rs),
              slots := slots', awaiting := False\<rparr>
         else rs\<lparr>slots := slots'\<rparr>)
      else rs)"

text \<open>
  A whole run: \<open>schedule\<close> lists the positions of the tasks in the order in which they
  complete, \<open>env i\<close> is what the task at position \<open>i\<close> meets.
\<close>

definition processInvoices ::
    "(nat \<Rightarrow> task_env) \<Rightarrow> nat list \<Rightarrow> js_object ui_state \<Rightarrow> run_state" where
  "processInvoices env schedule st =
     foldl (\<lambda>rs i. task_settles env i rs) (processInvoices_start st) schedule"

section \<open>Export serializer\<close>

text \<open>
  A row handed to the spreadsheet library: an object with string keys, whose keys keep
  the order in which the literal lists them.
\<close>

type_synonym SheetDataRow = "(string \<times> string) list"

text \<open>
  The objects of the spreadsheet library as \<open>downloadExcel\<close> uses them. A worksheet
  has a header row, the data rows cell by cell, and the column widths under
  \<open>!cols\<close> once set. A workbook refers to its worksheets: \<open>book_append_sheet\<close>
  stores a reference, so a worksheet changed after it was appended is written as
  changed. The worksheets live in a heap, a list addressed by position.
\<close>

record worksheet =
  header :: "string list"
  cells :: "string option list list"
  cols :: "nat list option"

record workbook =
  SheetNames :: "string list"
  Sheets :: "(string \<times> nat) list"

record written_file =
  written_name :: string
  written_sheets :: "(string \<times> worksheet) list"

text \<open>
  \<open>XLSX.utils.json_to_sheet\<close>: the header is the keys of the rows in the order of
  their first appearance, each data row holds the value under each header key.
\<close>

definition add_keys :: "string list \<Rightarrow> SheetDataRow \<Rightarrow> string list" where
  "add_keys hdr row = foldl (\<lambda>h k. if k \<in> set h then h else h @ [k]) hdr (map fst row)"

definition json_to_sheet :: "SheetDataRow list \<Rightarrow> worksheet list \<Rightarrow> nat \<times> worksheet list" where
  "json_to_sheet data heap =
     (let hdr = foldl add_keys [] data in
      (length heap,
       heap @ [\<lparr>header = hdr, cells = map (\<lambda>row. map (map_of row) hdr) data, cols = None\<rparr>]))"

text \<open>\<open>XLSX.utils.book_new\<close> and \<open>XLSX.utils.book_append_sheet\<close>.\<close>

definition book_new :: workbook where
  "book_new = \<lparr>SheetNames = [], Sheets = []\<rparr>"

definition book_append_sheet :: "workbook \<Rightarrow> nat \<Rightarrow> string \<Rightarrow> workbook" where
  "book_append_sheet wb ws sheet_name =
     wb\<lparr>SheetNames := SheetNames wb @ [sheet_name], Sheets := Sheets wb @ [(sheet_name, ws)]\<rparr>"

text \<open>The assignment \<open>worksheet["!cols"] = ...\<close> with the \<open>wch\<close> values.\<close>

definition set_cols :: "nat \<Rightarrow> nat list \<Rightarrow> worksheet list \<Rightarrow> worksheet list" where
  "set_cols ws widths heap =
     (if ws < length heap then heap[ws := (heap ! ws)\<lparr>cols := Some widths\<rparr>] else heap)"

text \<open>\<open>XLSX.writeFile\<close>: the sheets of the workbook as the heap holds them at the call.\<close>

definition writeFile :: "workbook \<Rightarrow> string \<Rightarrow> worksheet list \<Rightarrow> written_file" where
  "writeFile wb filename heap =
     \<lparr>written_name = filename,
      written_sheets =
        concat (map (\<lambda>(sheet_name, ws).
                  case element_at heap ws of Some sheet \<Rightarrow> [(sheet_name, sheet)] | None \<Rightarrow> [])
               (Sheets wb))\<rparr>"

text \<open>The object literal \<open>downloadExcel\<close> maps each record to.\<close>

definition sheet_row :: "ExtractedInvoiceData \<Rightarrow> SheetDataRow" where
  "sheet_row item =
     [(''Invoice Number'', invoiceNumber item),
      (''Company Number'', companyNumber item),
      (''Date'', date item),
      (''Total Amount'', totalAmount item),
      (''Source File'', fileName item)]"

text \<open>
  \<open>downloadExcel\<close>. \<open>xlsx_defined\<close> tells whether the script tag has defined the
  global \<open>XLSX\<close>. The result is the component state and the file written, if any.
\<close>

definition downloadExcel ::
    "bool \<Rightarrow> ExtractedInvoiceData ui_state
      \<Rightarrow> ExtractedInvoiceData ui_state \<times> written_file option" where
  "downloadExcel xlsx_defined st =
     (if \<not> xlsx_defined then
        (st\<lparr>error := ''Excel library is still loading. Please try again in a moment.''\<rparr>, None)
      else if length (extractedData st) = 0 then
        (st\<lparr>error := ''No data to export.''\<rparr>, None)
      else
        (let sheetData = map sheet_row (extractedData st);
             (worksheet, heap1) = json_to_sheet sheetData [];
             workbook = book_append_sheet book_new worksheet ''Invoices'';
             max_width = foldl (\<lambda>w r. max w (length (or_empty (map_of r ''Source File'')))) 10
                           sheetData;
             heap2 = set_cols worksheet [20, 20, 15, 15, max_width] heap1
         in (st, Some (writeFile workbook ''InvoiceData.xlsx'' heap2))))"


text \<open>A result set for the examples below.\<close>

definition example_results :: "ExtractedInvoiceData ui_state" where
  "example_results =
     initial_state\<lparr>extractedData :=
       [\<lparr>invoiceNumber = ''1001'', companyNumber = ''ABN 12 345 678 901'',
          date = ''12/03/2024'', totalAmount = ''$1,234.50'',
          fileName = ''invoice-march-2024.jpg''\<rparr>,
        \<lparr>invoiceNumber = [], companyNumber = ''Error'', date = ''Error'',
          totalAmount = ''Error'', fileName = ''b.jpg''\<rparr>]\<rparr>"

section \<open>Auxiliary notions and example inputs\<close>

text \<open>
  What the gateway hands to the handler of one task: the parsed reply, or nothing when
  the read fails, no payload is decoded from the data URL, or the gateway call throws
  or rejects. A task fails when it is nothing.
\<close>

definition extracted :: "task_env \<Rightarrow> js_value option" where
  "extracted e =
     (case reader e of
        OnError \<Rightarrow> None
      | OnLoad result \<Rightarrow>
          (case base64_of result of
             None \<Rightarrow> None
           | Some b \<Rightarrow>
               if b = [] then None
               else (case extractInvoiceData (fetch e) b of Inl err \<Rightarrow> None | Inr d \<Rightarrow> Some d)))"

definition task_fails :: "task_env \<Rightarrow> bool" where
  "task_fails e =
     (case reader e of
        OnError \<Rightarrow> True
      | OnLoad result \<Rightarrow>
          (case base64_of result of
             None \<Rightarrow> True
           | Some b \<Rightarrow> b = [] \<or> isl (extractInvoiceData (fetch e) b)))"

text \<open>The record the promise of one task resolves with.\<close>

definition resolved_record :: "selected_file \<Rightarrow> task_env \<Rightarrow> js_object" where
  "resolved_record f e =
     (case extracted e of
        None \<Rightarrow> error_record (name f)
      | Some d \<Rightarrow> spread_into [(''fileName'', JString (name f))] d)"

text \<open>
  The per-file promises once the tasks at the positions in \<open>settled\<close> have settled, and
  the records they resolve with, by position.
\<close>

definition slots_when ::
    "(nat \<Rightarrow> task_env) \<Rightarrow> selected_file list \<Rightarrow> nat set \<Rightarrow> js_object promise list" where
  "slots_when env files settled =
     map (\<lambda>i. if i \<in> settled then processingPromise (files ! i) (env i) else Pending)
       [0 ..< length files]"

definition resolved_records :: "(nat \<Rightarrow> task_env) \<Rightarrow> selected_file list \<Rightarrow> js_object list" where
  "resolved_records env files =
     map (\<lambda>i. resolved_record (files ! i) (env i)) [0 ..< length files]"

text \<open>The sanitizer pass throws on a record.\<close>

definition sanitizer_throws :: "js_object \<Rightarrow> bool" where
  "sanitizer_throws r = isl (sanitize_result r)"

text \<open>
  The pattern \<open>^[0-9]*$\<close>: every character is a decimal digit; and a record whose
  invoice number is a string of that pattern.
\<close>

definition digits_only :: "string \<Rightarrow> bool" where
  "digits_only s = list_all is_digit s"

definition invoice_number_digits :: "js_object \<Rightarrow> bool" where
  "invoice_number_digits r =
     (case obj_get r ''invoiceNumber'' of JString s \<Rightarrow> digits_only s | _ \<Rightarrow> False)"

text \<open>
  Concrete environments for the examples below: a task whose read succeeds and whose
  reply parses to a given value, the reply of the specification's first scenario, the
  same reply with a \<open>fileName\<close> property added, the same reply with a number for the
  invoice number, a reader that fails, and a reply with status 429.
\<close>

definition reply_env :: "js_value \<Rightarrow> task_env" where
  "reply_env d =
     \<lparr>reader = OnLoad (Some ''data:image/jpeg;base64,AAAA''),
      fetch = (\<lambda>b. Response \<lparr>status = 200, body_text = [],
                body_json = Some \<lparr>candidate_text = JString ''{...}'',
                                   parsed = Some d\<rparr>\<rparr>)\<rparr>"

definition env_ok :: task_env where
  "env_ok =
     reply_env (JObject
       [(''invoiceNumber'', JString ''INV-1001''),
        (''companyNumber'', JString ''ABN 12 345 678 901''),
        (''totalAmount'', JString ''$1,234.50''),
        (''date'', JString ''12/03/2024'')])"

definition env_named :: task_env where
  "env_named =
     reply_env (JObject
       [(''fileName'', JString ''other.pdf''),
        (''invoiceNumber'', JString ''INV-1001''),
        (''companyNumber'', JString ''ABN 12 345 678 901''),
        (''totalAmount'', JString ''$1,234.50''),
        (''date'', JString ''12/03/2024'')])"

definition env_numeric :: task_env where
  "env_numeric =
     reply_env (JObject
       [(''invoiceNumber'', JNumber 1001),
        (''companyNumber'', JString ''ABN 12 345 678 901''),
        (''totalAmount'', JString ''$1,234.50''),
        (''date'', JString ''12/03/2024'')])"

definition env_read_error :: task_env where
  "env_read_error = \<lparr>reader = OnError, fetch = (\<lambda>b. NetworkError)\<rparr>"

definition env_429 :: task_env where
  "env_429 =
     \<lparr>reader = OnLoad (Some ''data:image/jpeg;base64,BBBB''),
      fetch = (\<lambda>b. Response \<lparr>status = 429, body_text = ''Too Many Requests'',
                body_json = None\<rparr>)\<rparr>"

definition two_files :: "js_object ui_state" where
  "two_files =
     \<lparr>selectedFiles = [mk_file ''a.jpg'' 7, mk_file ''b.jpg'' 9], extractedData = [],
      isLoading = False, error = []\<rparr>"

text \<open>
  The state of a run on a non-empty selection once the tasks at the positions in
  \<open>settled\<close> have completed.
\<close>

definition run_after ::
    "(nat \<Rightarrow> task_env) \<Rightarrow> js_object ui_state \<Rightarrow> nat set \<Rightarrow> run_state" where
  "run_after env st settled =
     \<lparr>ui = (if {..< length (selectedFiles st)} \<subseteq> settled
            then processInvoices_resume (Fulfilled (resolved_records env (selectedFiles st)))
                   (resetUI st)
            else resetUI st),
      batch = selectedFiles st,
      slots = slots_when env (selectedFiles st) settled,
      awaiting = (\<not> {..< length (selectedFiles st)} \<subseteq> settled)\<rparr>"

section \<open>Properties of the sanitizer\<close>

lemma replace_nondigit_runs_dropWhile:
  "replace_nondigit_runs [] (dropWhile (\<lambda>x. \<not> is_digit x) cs) = replace_nondigit_runs [] cs"
  by (induction cs) auto

lemma replace_nondigit_runs_filter:
  "replace_nondigit_runs [] s = filter is_digit s"
  by (induction s) (auto simp: replace_nondigit_runs_dropWhile)

text \<open>
  C4. For every input string \<open>s\<close>, \<open>sanitizeInvoiceNumber\<close> returns exactly the
  decimal digits of \<open>s\<close> in their original order, which is a subsequence of \<open>s\<close>;
  for an absent or an empty input it returns the empty string. The function is total:
  it has a value on every input, absent or not.
\<close>

theorem sanitizeInvoiceNumber_digit_subsequence:
  "sanitizeInvoiceNumber (Some s) = filter is_digit s
   \<and> subseq (sanitizeInvoiceNumber (Some s)) s
   \<and> sanitizeInvoiceNumber None = []
   \<and> sanitizeInvoiceNumber (Some []) = []"
  by (simp add: sanitizeInvoiceNumber_def or_empty_def replace_nondigit_runs_filter)

section \<open>Properties of the file selection\<close>

lemma filesToAdd_keys:
  "filesToAdd selected newFiles =
     filter (\<lambda>f. file_key f \<notin> file_key ` set selected) newFiles"
  by (auto simp: filesToAdd_def file_key_def list_ex_iff image_iff intro!: filter_cong)

lemma cap_error_message_nonempty: "cap_error_message m n \<noteq> []"
  by (simp add: cap_error_message_def)

lemma filesToAdd_length: "length (filesToAdd selected newFiles) \<le> length newFiles"
  by (simp add: filesToAdd_def)

lemma handleFileSelection_within_cap:
  assumes "length (selectedFiles st) \<le> 10"
  shows "length (selectedFiles (handleFileSelection files st)) \<le> 10"
proof (cases files)
  case None
  then show ?thesis using assms by (simp add: handleFileSelection_def)
next
  case (Some newFiles)
  then show ?thesis
    using assms filesToAdd_length [of "selectedFiles st" newFiles]
    by (auto simp: handleFileSelection_def Let_def)
qed

lemma removeFile_within_cap:
  "length (selectedFiles (removeFile indexToRemove st)) \<le> length (selectedFiles st)"
proof -
  have "length (filter (\<lambda>(index, f). index \<noteq> indexToRemove)
                  (zip [0 ..< length (selectedFiles st)] (selectedFiles st)))
      \<le> length (zip [0 ..< length (selectedFiles st)] (selectedFiles st))"
    by (rule length_filter_le)
  then show ?thesis by (simp add: removeFile_def)
qed

text \<open>
  C5. Whenever a newly chosen batch of \<open>m\<close> files would bring the total above 10,
  \<open>handleFileSelection\<close> reports the cap error (a non-empty message naming both
  counts) and leaves the selection unchanged: no file is added. This holds in every
  state with at most 10 files selected, which the two lemmas above show to be all the
  states the selection reaches from the empty one, and for every non-empty batch in
  any state.
\<close>

theorem handleFileSelection_cap_rejects:
  assumes "length (selectedFiles st) \<le> 10 \<or> newFiles \<noteq> []"
    and "length (selectedFiles st) + length newFiles > 10"
  shows "error (handleFileSelection (Some newFiles) st)
           = cap_error_message (length newFiles) (length (selectedFiles st))
         \<and> error (handleFileSelection (Some newFiles) st) \<noteq> []
         \<and> selectedFiles (handleFileSelection (Some newFiles) st) = selectedFiles st"
proof -
  have "newFiles \<noteq> []"
    using assms by auto
  then show ?thesis
    using assms(2) by (simp add: handleFileSelection_def cap_error_message_nonempty)
qed

theorem handleFileSelection_cap_rejects_witness:
  "numbered_files 2 \<noteq> []
   \<and> length (selectedFiles (initial_state\<lparr>selectedFiles := numbered_files 9\<rparr>))
       + length (numbered_files 2) > 10
   \<and> error (handleFileSelection (Some (numbered_files 2))
        (initial_state\<lparr>selectedFiles := numbered_files 9\<rparr>))
       = ''Cannot add 2 file(s). Maximum of 10 files allowed. Currently have 9 files selected.''
   \<and> selectedFiles (handleFileSelection (Some (numbered_files 2))
        (initial_state\<lparr>selectedFiles := numbered_files 9\<rparr>)) = numbered_files 9"
proof -
  have ne: "numbered_files 2 \<noteq> []"
    by (simp add: numbered_files_def)
  have over: "length (selectedFiles (initial_state\<lparr>selectedFiles := numbered_files 9\<rparr>))
       + length (numbered_files 2) > 10"
    by (simp add: numbered_files_def)
  have msg: "cap_error_message 2 9
      = ''Cannot add 2 file(s). Maximum of 10 files allowed. Currently have 9 files selected.''"
    by (simp add: cap_error_message_def string_of_nat.simps digit_char_def)
  have len: "length (numbered_files 2) = 2" "length (numbered_files 9) = 9"
    by (simp_all add: numbered_files_def)
  show ?thesis
    using ne over handleFileSelection_cap_rejects [OF disjI2 [OF ne] over] msg len by simp
qed

lemma handleFileSelection_selected_cases:
  "selectedFiles (handleFileSelection (Some newFiles) st) = selectedFiles st
   \<or> selectedFiles (handleFileSelection (Some newFiles) st)
       = selectedFiles st @ filesToAdd (selectedFiles st) newFiles"
  by (simp add: handleFileSelection_def Let_def)

lemma handleFileSelection_selected_accepted:
  "length (selectedFiles st) + length newFiles \<le> 10 \<Longrightarrow>
   selectedFiles (handleFileSelection (Some newFiles) st)
     = selectedFiles st @ filesToAdd (selectedFiles st) newFiles"
  by (cases newFiles) (simp_all add: handleFileSelection_def Let_def filesToAdd_def)

lemma count_list_filesToAdd:
  "k \<in> file_key ` set selected \<Longrightarrow>
   count_list (map file_key (filesToAdd selected newFiles)) k = 0"
  by (auto simp: filesToAdd_keys count_list_0_iff) (metis imageI)

lemma distinct_append_filesToAdd:
  assumes "distinct (map file_key selected)" and "distinct (map file_key newFiles)"
  shows "distinct (map file_key (selected @ filesToAdd selected newFiles))"
  using assms by (auto simp: filesToAdd_keys distinct_map_filter)

text \<open>
  C6, as the code has it. A chosen file whose (name, size) pair equals that of an
  already selected file is never added: after every call the number of selected files
  with that pair is what it was. If the selected list and the chosen batch each have
  pairwise distinct pairs, the selected list has pairwise distinct pairs after the
  call. When the batch is within the cap (\<open>n + m \<le> 10\<close>), every chosen file whose pair
  matches no selected file is appended, in the order of the batch.
\<close>

theorem handleFileSelection_dedup:
  "(\<forall>f \<in> set newFiles. file_key f \<in> file_key ` set (selectedFiles st) \<longrightarrow>
       count_list (map file_key (selectedFiles (handleFileSelection (Some newFiles) st))) (file_key f)
         = count_list (map file_key (selectedFiles st)) (file_key f))
   \<and> (distinct (map file_key (selectedFiles st)) \<and> distinct (map file_key newFiles) \<longrightarrow>
        distinct (map file_key (selectedFiles (handleFileSelection (Some newFiles) st))))
   \<and> (length (selectedFiles st) + length newFiles \<le> 10 \<longrightarrow>
        selectedFiles (handleFileSelection (Some newFiles) st)
          = selectedFiles st @ filter (\<lambda>f. file_key f \<notin> file_key ` set (selectedFiles st)) newFiles)"
proof (intro conjI ballI impI)
  fix f
  assume "f \<in> set newFiles" and k: "file_key f \<in> file_key ` set (selectedFiles st)"
  show "count_list (map file_key (selectedFiles (handleFileSelection (Some newFiles) st))) (file_key f)
         = count_list (map file_key (selectedFiles st)) (file_key f)"
    using handleFileSelection_selected_cases [of newFiles st] count_list_filesToAdd [OF k, of newFiles]
    by auto
next
  assume "distinct (map file_key (selectedFiles st)) \<and> distinct (map file_key newFiles)"
  then show "distinct (map file_key (selectedFiles (handleFileSelection (Some newFiles) st)))"
    using handleFileSelection_selected_cases [of newFiles st]
      distinct_append_filesToAdd [of "selectedFiles st" newFiles]
    by auto
next
  assume "length (selectedFiles st) + length newFiles \<le> 10"
  then show "selectedFiles (handleFileSelection (Some newFiles) st)
          = selectedFiles st @ filter (\<lambda>f. file_key f \<notin> file_key ` set (selectedFiles st)) newFiles"
    by (simp add: handleFileSelection_selected_accepted filesToAdd_keys)
qed

theorem handleFileSelection_dedup_witness:
  "count_list (map file_key (selectedFiles (handleFileSelection
       (Some [mk_file ''a.jpg'' 7, mk_file ''b.jpg'' 7, mk_file ''a.jpg'' 8])
       (initial_state\<lparr>selectedFiles := [mk_file ''a.jpg'' 7]\<rparr>)))) (''a.jpg'', 7) = 1
   \<and> distinct (map file_key (selectedFiles (handleFileSelection
       (Some [mk_file ''a.jpg'' 7, mk_file ''b.jpg'' 7, mk_file ''a.jpg'' 8])
       (initial_state\<lparr>selectedFiles := [mk_file ''a.jpg'' 7]\<rparr>))))
   \<and> selectedFiles (handleFileSelection
       (Some [mk_file ''a.jpg'' 7, mk_file ''b.jpg'' 7, mk_file ''a.jpg'' 8])
       (initial_state\<lparr>selectedFiles := [mk_file ''a.jpg'' 7]\<rparr>))
     = [mk_file ''a.jpg'' 7, mk_file ''b.jpg'' 7, mk_file ''a.jpg'' 8]"
  using handleFileSelection_dedup
    [of "[mk_file ''a.jpg'' 7, mk_file ''b.jpg'' 7, mk_file ''a.jpg'' 8]"
        "initial_state\<lparr>selectedFiles := [mk_file ''a.jpg'' 7]\<rparr>"]
  by (simp add: file_key_def mk_file_def)


text \<open>
  The claim as first stated fails twice. Two chosen files sharing one (name, size) pair
  are both appended to an empty selection, since the filter compares a chosen file with
  the selected files only; and with nine files selected, a batch of two files that match
  none of them is rejected by the cap, so neither is appended.
\<close>

theorem handleFileSelection_dedup_counterexample:
  "distinct (map file_key (selectedFiles initial_state))
   \<and> \<not> distinct (map file_key (selectedFiles (handleFileSelection
         (Some [mk_file ''a.jpg'' 7, mk_file ''a.jpg'' 7]) initial_state)))
   \<and> filesToAdd (numbered_files 9) [mk_file ''x.jpg'' 1, mk_file ''y.jpg'' 2]
       = [mk_file ''x.jpg'' 1, mk_file ''y.jpg'' 2]
   \<and> selectedFiles (handleFileSelection (Some [mk_file ''x.jpg'' 1, mk_file ''y.jpg'' 2])
         (initial_state\<lparr>selectedFiles := numbered_files 9\<rparr>)) = numbered_files 9"
proof -
  have a: "selectedFiles (handleFileSelection
         (Some [mk_file ''a.jpg'' 7, mk_file ''a.jpg'' 7]) initial_state)
      = [mk_file ''a.jpg'' 7, mk_file ''a.jpg'' 7]"
    by (simp add: handleFileSelection_def filesToAdd_def initial_state_def)
  have b: "filesToAdd (numbered_files 9) [mk_file ''x.jpg'' 1, mk_file ''y.jpg'' 2]
       = [mk_file ''x.jpg'' 1, mk_file ''y.jpg'' 2]"
    by (simp add: filesToAdd_def numbered_files_def upt_conv_Cons mk_file_def)
  have c: "selectedFiles (handleFileSelection (Some [mk_file ''x.jpg'' 1, mk_file ''y.jpg'' 2])
         (initial_state\<lparr>selectedFiles := numbered_files 9\<rparr>)) = numbered_files 9"
    by (simp add: handleFileSelection_def numbered_files_def)
  show ?thesis
    unfolding a using b c by (simp add: initial_state_def)
qed


text \<open>
  C10. The cap compares the raw count of chosen files, before any duplicate is filtered
  out: a batch with \<open>n + m > 10\<close> leaves the whole state as it was but for the cap
  message, whatever the filter would have kept. The concrete case below has ten files
  selected and chooses one of them again: the filter would add nothing, and the call is
  rejected all the same.
\<close>

theorem handleFileSelection_cap_counts_before_dedup:
  assumes "length (selectedFiles st) \<le> 10 \<or> newFiles \<noteq> []"
    and "length (selectedFiles st) + length newFiles > 10"
  shows "handleFileSelection (Some newFiles) st
           = st\<lparr>error := cap_error_message (length newFiles) (length (selectedFiles st))\<rparr>"
proof -
  have "newFiles \<noteq> []"
    using assms by auto
  then show ?thesis
    using assms(2) by (simp add: handleFileSelection_def)
qed

theorem handleFileSelection_cap_counts_before_dedup_witness:
  "[mk_file ''0.jpg'' 100] \<noteq> []
   \<and> length (selectedFiles (initial_state\<lparr>selectedFiles := numbered_files 10\<rparr>))
        + length [mk_file ''0.jpg'' 100] > 10
   \<and> filesToAdd (numbered_files 10) [mk_file ''0.jpg'' 100] = []
   \<and> handleFileSelection (Some [mk_file ''0.jpg'' 100])
        (initial_state\<lparr>selectedFiles := numbered_files 10\<rparr>)
      = initial_state\<lparr>selectedFiles := numbered_files 10,
          error := ''Cannot add 1 file(s). Maximum of 10 files allowed. Currently have 10 files selected.''\<rparr>"
proof -
  have ne: "[mk_file ''0.jpg'' 100] \<noteq> []" by simp
  have len: "length (numbered_files 10) = 10"
    by (simp add: numbered_files_def)
  have over: "length (selectedFiles (initial_state\<lparr>selectedFiles := numbered_files 10\<rparr>))
        + length [mk_file ''0.jpg'' 100] > 10"
    by (simp add: len)
  have dup: "filesToAdd (numbered_files 10) [mk_file ''0.jpg'' 100] = []"
    by (simp add: filesToAdd_def numbered_files_def upt_conv_Cons string_of_nat.simps
        digit_char_def mk_file_def)
  have msg: "cap_error_message 1 10
      = ''Cannot add 1 file(s). Maximum of 10 files allowed. Currently have 10 files selected.''"
    by (simp add: cap_error_message_def string_of_nat.simps digit_char_def)
  show ?thesis
    using ne over dup handleFileSelection_cap_counts_before_dedup [OF disjI2 [OF ne] over]
      msg len
    by simp
qed


section \<open>Properties of the batch orchestrator\<close>

subsection \<open>Objects\<close>

lemma map_of_replace_key:
  "map_of (map (\<lambda>(k', v'). if k' = k then (k', v) else (k', v')) obj) k'' =
     (if k'' = k then (if k \<in> fst ` set obj then Some v else None) else map_of obj k'')"
  by (induction obj) (force simp: image_iff)+

lemma obj_get_obj_set_same: "obj_get (obj_set k v obj) k = v"
proof (cases "k \<in> fst ` set obj")
  case True
  then show ?thesis
    by (simp add: obj_get_def obj_set_def map_of_replace_key)
next
  case False
  then have "map_of obj k = None"
    by (simp add: map_of_eq_None_iff)
  then show ?thesis
    using False by (simp add: obj_get_def obj_set_def map_add_def)
qed

lemma obj_get_obj_set_other: "k' \<noteq> k \<Longrightarrow> obj_get (obj_set k v obj) k' = obj_get obj k'"
  by (simp add: obj_get_def obj_set_def map_of_replace_key map_add_def split: option.split)

lemma obj_get_fold_other:
  "k \<notin> fst ` set ps \<Longrightarrow>
   obj_get (foldl (\<lambda>acc (k', x). obj_set k' x acc) obj ps) k = obj_get obj k"
proof (induction ps arbitrary: obj)
  case Nil
  show ?case by simp
next
  case (Cons p ps)
  obtain k' x where p: "p = (k', x)"
    by (cases p)
  from Cons.prems p have "k \<noteq> k'" and rest: "k \<notin> fst ` set ps"
    by auto
  then show ?case
    using Cons.IH [OF rest] by (simp add: p obj_get_obj_set_other)
qed

lemma obj_get_spread_other:
  "k \<notin> fst ` set (own_properties d) \<Longrightarrow> obj_get (spread_into obj d) k = obj_get obj k"
  by (simp add: spread_into_def obj_get_fold_other)

subsection \<open>The sanitizer pass\<close>

lemma digits_only_sanitize: "digits_only (sanitizeInvoiceNumber raw)"
  by (simp add: digits_only_def sanitizeInvoiceNumber_def replace_nondigit_runs_filter
      list_all_iff)

lemma sanitizeInvoiceNumber_js_digits:
  "sanitizeInvoiceNumber_js v = Inr s \<Longrightarrow> digits_only s"
  using digits_only_sanitize
  by (auto simp: sanitizeInvoiceNumber_js_def split: js_value.splits if_splits)

lemma sanitizer_throws_iff:
  "sanitizer_throws r \<longleftrightarrow>
     truthy (obj_get r ''invoiceNumber'') \<and> (\<forall>s. obj_get r ''invoiceNumber'' \<noteq> JString s)"
  by (auto simp: sanitizer_throws_def sanitize_result_def sanitizeInvoiceNumber_js_def
      split: js_value.splits sum.splits)

lemma sanitize_result_digits:
  "sanitize_result r = Inr r' \<Longrightarrow> invoice_number_digits r'"
  by (auto simp: sanitize_result_def invoice_number_digits_def obj_get_obj_set_same
      sanitizeInvoiceNumber_js_digits split: sum.splits)

lemma sanitize_result_other:
  "sanitize_result r = Inr r' \<Longrightarrow> k \<noteq> ''invoiceNumber'' \<Longrightarrow> obj_get r' k = obj_get r k"
  by (auto simp: sanitize_result_def obj_get_obj_set_other split: sum.splits)

lemma sanitize_error_record:
  "sanitize_result (error_record fname) =
     Inr [(''fileName'', JString fname), (''invoiceNumber'', JString []),
          (''companyNumber'', JString ''Error''), (''date'', JString ''Error''),
          (''totalAmount'', JString ''Error'')]"
  by (simp add: sanitize_result_def error_record_def obj_get_def obj_set_def
      sanitizeInvoiceNumber_js_def sanitizeInvoiceNumber_def or_empty_def is_digit_def)

lemma error_record_accepted: "\<not> sanitizer_throws (error_record fname)"
  by (simp add: sanitizer_throws_def sanitize_error_record)

lemma map_throwing_accepts:
  "(\<forall>x \<in> set xs. \<not> isl (f x)) \<Longrightarrow> map_throwing f xs = Inr (map (\<lambda>x. projr (f x)) xs)"
  by (induction xs) (auto split: sum.splits)

lemma map_throwing_throws:
  "x \<in> set xs \<Longrightarrow> isl (f x) \<Longrightarrow> isl (map_throwing f xs)"
  by (induction xs) (auto split: sum.splits)

lemma map_throwing_elements:
  "map_throwing f xs = Inr ys \<Longrightarrow>
   length ys = length xs \<and> (\<forall>i < length xs. f (xs ! i) = Inr (ys ! i))"
proof (induction xs arbitrary: ys)
  case Nil
  then show ?case by simp
next
  case (Cons x xs)
  then obtain y ys' where fx: "f x = Inr y" and rest: "map_throwing f xs = Inr ys'"
    and ys: "ys = y # ys'"
    by (auto split: sum.splits)
  from Cons.IH [OF rest] show ?case
    by (auto simp: ys fx nth_Cons split: nat.split)
qed

subsection \<open>One task\<close>

lemma task_fails_extracted: "task_fails e \<longleftrightarrow> extracted e = None"
  by (auto simp: task_fails_def extracted_def
      split: read_event.splits option.splits sum.splits)

lemma processingPromise_resolved:
  "processingPromise f e = Fulfilled (resolved_record f e)"
  by (simp add: processingPromise_def resolved_record_def extracted_def
      split: read_event.split option.split sum.split)

lemma resolved_record_fails:
  "task_fails e \<Longrightarrow> resolved_record f e = error_record (name f)"
  by (simp add: task_fails_extracted resolved_record_def)

lemma resolved_record_fileName:
  assumes "\<forall>d. extracted e = Some d \<longrightarrow> ''fileName'' \<notin> fst ` set (own_properties d)"
  shows "obj_get (resolved_record f e) ''fileName'' = JString (name f)"
proof (cases "extracted e")
  case None
  then show ?thesis
    by (simp add: resolved_record_def error_record_def obj_get_def)
next
  case (Some d)
  with assms have "''fileName'' \<notin> fst ` set (own_properties d)"
    by simp
  then show ?thesis
    by (simp add: resolved_record_def Some obj_get_spread_other) (simp add: obj_get_def)
qed

lemma extractInvoiceData_not_ok:
  "fetch_fn b = Response r \<Longrightarrow> \<not> response_ok r \<Longrightarrow> isl (extractInvoiceData fetch_fn b)"
  by (simp add: extractInvoiceData_def)

subsection \<open>The run, settlement by settlement\<close>

lemma promise_all_settled:
  "promise_all (map (\<lambda>i. if i \<in> S then Fulfilled (r i) else Pending) xs) =
     (if set xs \<subseteq> S then Fulfilled (map r xs) else Pending)"
  by (induction xs) (auto split: promise.splits)

lemma slots_when_length [simp]: "length (slots_when env files S) = length files"
  by (simp add: slots_when_def)

lemma slots_when_nth:
  "i < length files \<Longrightarrow>
   slots_when env files S ! i = (if i \<in> S then Fulfilled (resolved_record (files ! i) (env i)) else Pending)"
  by (simp add: slots_when_def processingPromise_resolved)

lemma slots_when_promise_all:
  "promise_all (slots_when env files S) =
     (if {..< length files} \<subseteq> S then Fulfilled (resolved_records env files) else Pending)"
proof -
  have "set [0 ..< length files] \<subseteq> S \<longleftrightarrow> {..< length files} \<subseteq> S"
    by auto
  then show ?thesis
    unfolding slots_when_def resolved_records_def processingPromise_resolved
    by (simp only: promise_all_settled)
qed

lemma slots_when_update:
  "i < length files \<Longrightarrow>
   (slots_when env files S)[i := processingPromise (files ! i) (env i)]
     = slots_when env files (insert i S)"
  by (rule nth_equalityI) (auto simp: slots_when_nth nth_list_update processingPromise_resolved)

lemma slots_when_out_of_range:
  "\<not> i < length files \<Longrightarrow> slots_when env files (insert i S) = slots_when env files S"
  by (simp add: slots_when_def)

lemma task_settles_run_after:
  "task_settles env i (run_after env st S) = run_after env st (insert i S)"
proof (cases "i < length (selectedFiles st) \<and> i \<notin> S")
  case True
  then have nsub: "\<not> {..< length (selectedFiles st)} \<subseteq> S"
    by auto
  have pend: "slots_when env (selectedFiles st) S ! i = Pending"
    using True by (simp add: slots_when_nth)
  show ?thesis
    using True nsub pend
    by (simp add: task_settles_def run_after_def Let_def slots_when_update slots_when_promise_all)
next
  case False
  show ?thesis
  proof (cases "i \<in> S")
    case True
    then have ins: "insert i S = S" by auto
    have "i < length (selectedFiles st) \<Longrightarrow> slots_when env (selectedFiles st) S ! i \<noteq> Pending"
      using True by (simp add: slots_when_nth)
    then show ?thesis
      by (auto simp: ins task_settles_def run_after_def)
  next
    case False
    with \<open>\<not> (i < length (selectedFiles st) \<and> i \<notin> S)\<close>
    have out: "\<not> i < length (selectedFiles st)" by simp
    then have "{..< length (selectedFiles st)} \<subseteq> insert i S \<longleftrightarrow> {..< length (selectedFiles st)} \<subseteq> S"
      by auto
    then show ?thesis
      using out by (simp add: task_settles_def run_after_def slots_when_out_of_range)
  qed
qed

lemma processInvoices_start_run_after:
  "selectedFiles st \<noteq> [] \<Longrightarrow> processInvoices_start st = run_after env st {}"
  by (auto simp: processInvoices_start_def run_after_def slots_when_def map_replicate_const)

lemma processInvoices_run_after:
  assumes "selectedFiles st \<noteq> []"
  shows "processInvoices env schedule st = run_after env st (set schedule)"
proof (induction schedule rule: rev_induct)
  case Nil
  show ?case
    using assms by (simp add: processInvoices_def processInvoices_start_run_after)
next
  case (snoc i schedule)
  have "processInvoices env (schedule @ [i]) st = task_settles env i (processInvoices env schedule st)"
    by (simp add: processInvoices_def)
  then show ?case
    by (simp add: snoc.IH task_settles_run_after)
qed

lemma processInvoices_no_files:
  assumes "selectedFiles st = []"
  shows "processInvoices env schedule st =
     \<lparr>ui = st\<lparr>error := ''No files selected.''\<rparr>, batch = [], slots = [], awaiting = False\<rparr>"
proof (induction schedule rule: rev_induct)
  case Nil
  show ?case using assms by (simp add: processInvoices_def processInvoices_start_def)
next
  case (snoc i schedule)
  have "processInvoices env (schedule @ [i]) st = task_settles env i (processInvoices env schedule st)"
    by (simp add: processInvoices_def)
  then show ?case
    by (simp add: snoc.IH task_settles_def)
qed

lemma resolved_records_length [simp]: "length (resolved_records env files) = length files"
  by (simp add: resolved_records_def)

lemma resolved_records_nth:
  "i < length files \<Longrightarrow> resolved_records env files ! i = resolved_record (files ! i) (env i)"
  by (simp add: resolved_records_def)

lemma resolved_records_accepted:
  "(\<forall>r \<in> set (resolved_records env files). \<not> isl (sanitize_result r)) \<longleftrightarrow>
   (\<forall>i < length files. \<not> sanitizer_throws (resolved_record (files ! i) (env i)))"
  by (auto simp: resolved_records_def sanitizer_throws_def)

lemma run_incomplete:
  assumes "selectedFiles st \<noteq> []" and "\<not> {..< length (selectedFiles st)} \<subseteq> set schedule"
  shows "extractedData (ui (processInvoices env schedule st)) = []"
    and "isLoading (ui (processInvoices env schedule st)) = True"
    and "error (ui (processInvoices env schedule st)) = []"
  using assms
  by (simp_all add: processInvoices_run_after run_after_def resetUI_def)

lemma run_complete_slots:
  assumes "selectedFiles st \<noteq> []" and "{..< length (selectedFiles st)} \<subseteq> set schedule"
  shows "promise_all (slots (processInvoices env schedule st))
           = Fulfilled (resolved_records env (selectedFiles st))"
  using assms by (simp add: processInvoices_run_after run_after_def slots_when_promise_all)

lemma run_complete_accepted:
  assumes "selectedFiles st \<noteq> []" and "{..< length (selectedFiles st)} \<subseteq> set schedule"
    and "map_throwing sanitize_result (resolved_records env (selectedFiles st)) = Inr sanitized"
  shows "extractedData (ui (processInvoices env schedule st)) = sanitized"
    and "isLoading (ui (processInvoices env schedule st)) = False"
    and "error (ui (processInvoices env schedule st)) = []"
  using assms
  by (simp_all add: processInvoices_run_after run_after_def processInvoices_resume_def resetUI_def)

lemma run_complete_thrown:
  assumes "selectedFiles st \<noteq> []" and "{..< length (selectedFiles st)} \<subseteq> set schedule"
    and "isl (map_throwing sanitize_result (resolved_records env (selectedFiles st)))"
  shows "extractedData (ui (processInvoices env schedule st)) = []"
    and "isLoading (ui (processInvoices env schedule st)) = False"
    and "error (ui (processInvoices env schedule st))
           = ''A critical error occurred while processing files. Please check the console.''"
  using assms
  by (auto simp: processInvoices_run_after run_after_def processInvoices_resume_def resetUI_def
      split: sum.splits)

lemma run_complete_all_accepted:
  assumes "selectedFiles st \<noteq> []" and "{..< length (selectedFiles st)} \<subseteq> set schedule"
    and "\<forall>i < length (selectedFiles st).
           \<not> sanitizer_throws (resolved_record (selectedFiles st ! i) (env i))"
  shows "length (extractedData (ui (processInvoices env schedule st))) = length (selectedFiles st)"
    and "\<forall>i < length (selectedFiles st).
           sanitize_result (resolved_record (selectedFiles st ! i) (env i))
             = Inr (extractedData (ui (processInvoices env schedule st)) ! i)"
proof -
  have "map_throwing sanitize_result (resolved_records env (selectedFiles st))
      = Inr (map (\<lambda>r. projr (sanitize_result r)) (resolved_records env (selectedFiles st)))"
    using assms(3) by (intro map_throwing_accepts) (simp add: resolved_records_accepted)
  then have ok: "map_throwing sanitize_result (resolved_records env (selectedFiles st))
      = Inr (extractedData (ui (processInvoices env schedule st)))"
    using run_complete_accepted(1) [OF assms(1,2)] by simp
  from map_throwing_elements [OF ok]
  show "length (extractedData (ui (processInvoices env schedule st))) = length (selectedFiles st)"
    and "\<forall>i < length (selectedFiles st).
           sanitize_result (resolved_record (selectedFiles st ! i) (env i))
             = Inr (extractedData (ui (processInvoices env schedule st)) ! i)"
    by (simp_all add: resolved_records_nth)
qed

subsection \<open>The example runs\<close>

lemma example_extracted:
  "extracted env_ok = Some (JObject
       [(''invoiceNumber'', JString ''INV-1001''),
        (''companyNumber'', JString ''ABN 12 345 678 901''),
        (''totalAmount'', JString ''$1,234.50''),
        (''date'', JString ''12/03/2024'')])"
  "extracted env_read_error = None"
  "extracted env_429 = None"
  by (simp_all add: extracted_def env_ok_def reply_env_def env_read_error_def env_429_def
      base64_of_def element_at_def extractInvoiceData_def response_ok_def)

lemma example_records:
  "resolved_record (mk_file ''a.jpg'' 7) env_ok =
     [(''fileName'', JString ''a.jpg''), (''invoiceNumber'', JString ''INV-1001''),
      (''companyNumber'', JString ''ABN 12 345 678 901''),
      (''totalAmount'', JString ''$1,234.50''), (''date'', JString ''12/03/2024'')]"
  "resolved_record (mk_file ''a.jpg'' 7) env_named =
     [(''fileName'', JString ''other.pdf''), (''invoiceNumber'', JString ''INV-1001''),
      (''companyNumber'', JString ''ABN 12 345 678 901''),
      (''totalAmount'', JString ''$1,234.50''), (''date'', JString ''12/03/2024'')]"
  "resolved_record (mk_file ''a.jpg'' 7) env_numeric =
     [(''fileName'', JString ''a.jpg''), (''invoiceNumber'', JNumber 1001),
      (''companyNumber'', JString ''ABN 12 345 678 901''),
      (''totalAmount'', JString ''$1,234.50''), (''date'', JString ''12/03/2024'')]"
  "resolved_record (mk_file ''b.jpg'' 9) env_read_error = error_record ''b.jpg''"
  "resolved_record (mk_file ''b.jpg'' 9) env_429 = error_record ''b.jpg''"
  by (simp_all add: resolved_record_def extracted_def env_ok_def env_named_def env_numeric_def
      reply_env_def env_read_error_def env_429_def base64_of_def element_at_def
      extractInvoiceData_def response_ok_def spread_into_def obj_set_def mk_file_def)

lemma example_sanitized:
  "sanitize_result
     [(''fileName'', JString ''a.jpg''), (''invoiceNumber'', JString ''INV-1001''),
      (''companyNumber'', JString ''ABN 12 345 678 901''),
      (''totalAmount'', JString ''$1,234.50''), (''date'', JString ''12/03/2024'')]
   = Inr [(''fileName'', JString ''a.jpg''), (''invoiceNumber'', JString ''1001''),
      (''companyNumber'', JString ''ABN 12 345 678 901''),
      (''totalAmount'', JString ''$1,234.50''), (''date'', JString ''12/03/2024'')]"
  "sanitize_result
     [(''fileName'', JString ''other.pdf''), (''invoiceNumber'', JString ''INV-1001''),
      (''companyNumber'', JString ''ABN 12 345 678 901''),
      (''totalAmount'', JString ''$1,234.50''), (''date'', JString ''12/03/2024'')]
   = Inr [(''fileName'', JString ''other.pdf''), (''invoiceNumber'', JString ''1001''),
      (''companyNumber'', JString ''ABN 12 345 678 901''),
      (''totalAmount'', JString ''$1,234.50''), (''date'', JString ''12/03/2024'')]"
  "sanitize_result
     [(''fileName'', JString ''a.jpg''), (''invoiceNumber'', JNumber 1001),
      (''companyNumber'', JString ''ABN 12 345 678 901''),
      (''totalAmount'', JString ''$1,234.50''), (''date'', JString ''12/03/2024'')]
   = Inl TypeError"
  by (simp_all add: sanitize_result_def obj_get_def obj_set_def sanitizeInvoiceNumber_js_def
      sanitizeInvoiceNumber_def or_empty_def is_digit_def)

lemma two_files_selected:
  "selectedFiles two_files = [mk_file ''a.jpg'' 7, mk_file ''b.jpg'' 9]"
  by (simp add: two_files_def)

lemma two_files_complete: "{..< length (selectedFiles two_files)} \<subseteq> set [1, 0]"
  by (auto simp: two_files_selected)

lemma two_files_records:
  "resolved_records (\<lambda>i. if i = 0 then e0 else e1) (selectedFiles two_files)
     = [resolved_record (mk_file ''a.jpg'' 7) e0, resolved_record (mk_file ''b.jpg'' 9) e1]"
  by (simp add: resolved_records_def two_files_selected upt_conv_Cons)

lemma example_run_out_of_order:
  "extractedData (ui (processInvoices (\<lambda>i. if i = 0 then env_ok else env_read_error) [1, 0] two_files))
     = [[(''fileName'', JString ''a.jpg''), (''invoiceNumber'', JString ''1001''),
         (''companyNumber'', JString ''ABN 12 345 678 901''),
         (''totalAmount'', JString ''$1,234.50''), (''date'', JString ''12/03/2024'')],
        [(''fileName'', JString ''b.jpg''), (''invoiceNumber'', JString []),
         (''companyNumber'', JString ''Error''), (''date'', JString ''Error''),
         (''totalAmount'', JString ''Error'')]]"
proof -
  have ne: "selectedFiles two_files \<noteq> []"
    by (simp add: two_files_selected)
  show ?thesis
    by (rule run_complete_accepted(1) [OF ne two_files_complete])
       (simp add: two_files_records example_records example_sanitized sanitize_error_record)
qed

lemma example_run_renamed:
  "extractedData (ui (processInvoices (\<lambda>i. if i = 0 then env_named else env_read_error) [1, 0] two_files))
     = [[(''fileName'', JString ''other.pdf''), (''invoiceNumber'', JString ''1001''),
         (''companyNumber'', JString ''ABN 12 345 678 901''),
         (''totalAmount'', JString ''$1,234.50''), (''date'', JString ''12/03/2024'')],
        [(''fileName'', JString ''b.jpg''), (''invoiceNumber'', JString []),
         (''companyNumber'', JString ''Error''), (''date'', JString ''Error''),
         (''totalAmount'', JString ''Error'')]]"
proof -
  have ne: "selectedFiles two_files \<noteq> []"
    by (simp add: two_files_selected)
  show ?thesis
    by (rule run_complete_accepted(1) [OF ne two_files_complete])
       (simp add: two_files_records example_records example_sanitized sanitize_error_record)
qed

lemma example_run_numeric:
  "extractedData (ui (processInvoices (\<lambda>i. if i = 0 then env_numeric else env_read_error) [1, 0] two_files)) = []"
  "error (ui (processInvoices (\<lambda>i. if i = 0 then env_numeric else env_read_error) [1, 0] two_files))
     = ''A critical error occurred while processing files. Please check the console.''"
proof -
  have ne: "selectedFiles two_files \<noteq> []"
    by (simp add: two_files_selected)
  have thrown: "isl (map_throwing sanitize_result
      (resolved_records (\<lambda>i. if i = 0 then env_numeric else env_read_error) (selectedFiles two_files)))"
    by (simp add: two_files_records example_records example_sanitized)
  show "extractedData (ui (processInvoices (\<lambda>i. if i = 0 then env_numeric else env_read_error) [1, 0] two_files)) = []"
    by (rule run_complete_thrown(1) [OF ne two_files_complete thrown])
  show "error (ui (processInvoices (\<lambda>i. if i = 0 then env_numeric else env_read_error) [1, 0] two_files))
     = ''A critical error occurred while processing files. Please check the console.''"
    by (rule run_complete_thrown(3) [OF ne two_files_complete thrown])
qed

subsection \<open>Order and completeness of the result set\<close>

text \<open>
  C1, as the code has it. For a non-empty selection of \<open>k\<close> files, once every per-file
  task has completed, in whatever order the schedule lists them, and provided the
  sanitizer accepts the invoice number of every resolved record (a string, or a falsy
  value), the result set has exactly \<open>k\<close> records, and the record at position \<open>i\<close>
  carries the name of the file at position \<open>i\<close> whenever the reply parsed for that file
  has no property named \<open>fileName\<close>. As long as some task has not completed, the result
  set is empty and the busy flag is set: nothing is surfaced before the last task
  resolves.
\<close>

theorem processInvoices_records_in_input_order:
  assumes "selectedFiles st \<noteq> []"
    and "{..< length (selectedFiles st)} \<subseteq> set schedule"
    and "\<forall>i < length (selectedFiles st).
           \<not> sanitizer_throws (resolved_record (selectedFiles st ! i) (env i))"
  shows "length (extractedData (ui (processInvoices env schedule st))) = length (selectedFiles st)
       \<and> (\<forall>i < length (selectedFiles st).
            (\<forall>d. extracted (env i) = Some d \<longrightarrow> ''fileName'' \<notin> fst ` set (own_properties d)) \<longrightarrow>
            obj_get (extractedData (ui (processInvoices env schedule st)) ! i) ''fileName''
              = JString (name (selectedFiles st ! i)))
       \<and> (\<forall>earlier. \<not> {..< length (selectedFiles st)} \<subseteq> set earlier \<longrightarrow>
             extractedData (ui (processInvoices env earlier st)) = []
             \<and> isLoading (ui (processInvoices env earlier st)))"
proof (intro conjI allI impI)
  show "length (extractedData (ui (processInvoices env schedule st))) = length (selectedFiles st)"
    by (rule run_complete_all_accepted(1) [OF assms])
next
  fix i
  assume i: "i < length (selectedFiles st)"
    and keep: "\<forall>d. extracted (env i) = Some d \<longrightarrow> ''fileName'' \<notin> fst ` set (own_properties d)"
  have "sanitize_result (resolved_record (selectedFiles st ! i) (env i))
      = Inr (extractedData (ui (processInvoices env schedule st)) ! i)"
    using run_complete_all_accepted(2) [OF assms] i by simp
  then have "obj_get (extractedData (ui (processInvoices env schedule st)) ! i) ''fileName''
      = obj_get (resolved_record (selectedFiles st ! i) (env i)) ''fileName''"
    by (rule sanitize_result_other) simp
  then show "obj_get (extractedData (ui (processInvoices env schedule st)) ! i) ''fileName''
      = JString (name (selectedFiles st ! i))"
    by (simp add: resolved_record_fileName [OF keep])
next
  fix earlier
  assume "\<not> {..< length (selectedFiles st)} \<subseteq> set earlier"
  then show "extractedData (ui (processInvoices env earlier st)) = []"
    and "isLoading (ui (processInvoices env earlier st))"
    using run_incomplete [OF assms(1)] by simp_all
qed

theorem processInvoices_records_in_input_order_witness:
  "selectedFiles two_files \<noteq> []
   \<and> {..< length (selectedFiles two_files)} \<subseteq> set [1, 0]
   \<and> \<not> sanitizer_throws (resolved_record (mk_file ''a.jpg'' 7) env_ok)
   \<and> \<not> sanitizer_throws (resolved_record (mk_file ''b.jpg'' 9) env_read_error)
   \<and> length (extractedData (ui (processInvoices
          (\<lambda>i. if i = 0 then env_ok else env_read_error) [1, 0] two_files))) = 2
   \<and> obj_get (extractedData (ui (processInvoices
          (\<lambda>i. if i = 0 then env_ok else env_read_error) [1, 0] two_files)) ! 0) ''fileName''
       = JString ''a.jpg''
   \<and> obj_get (extractedData (ui (processInvoices
          (\<lambda>i. if i = 0 then env_ok else env_read_error) [1, 0] two_files)) ! 1) ''fileName''
       = JString ''b.jpg''
   \<and> extractedData (ui (processInvoices
          (\<lambda>i. if i = 0 then env_ok else env_read_error) [1] two_files)) = []"
proof -
  have ne: "selectedFiles two_files \<noteq> []"
    by (simp add: two_files_selected)
  have a: "\<not> sanitizer_throws (resolved_record (mk_file ''a.jpg'' 7) env_ok)"
    by (simp add: sanitizer_throws_def example_records example_sanitized)
  have b: "\<not> sanitizer_throws (resolved_record (mk_file ''b.jpg'' 9) env_read_error)"
    by (simp add: example_records error_record_accepted)
  have accepted: "\<forall>i < length (selectedFiles two_files).
      \<not> sanitizer_throws (resolved_record (selectedFiles two_files ! i)
          ((\<lambda>i. if i = 0 then env_ok else env_read_error) i))"
    using a b by (simp add: two_files_selected less_Suc_eq)
  note inst = processInvoices_records_in_input_order
    [where st = two_files and schedule = "[1, 0]"
       and env = "\<lambda>i. if i = 0 then env_ok else env_read_error",
     OF ne two_files_complete accepted]
  have len: "length (extractedData (ui (processInvoices
          (\<lambda>i. if i = 0 then env_ok else env_read_error) [1, 0] two_files))) = 2"
    using inst [THEN conjunct1] by (simp add: two_files_selected)
  note names = inst [THEN conjunct2, THEN conjunct1, rule_format]
  have n0: "obj_get (extractedData (ui (processInvoices
          (\<lambda>i. if i = 0 then env_ok else env_read_error) [1, 0] two_files)) ! 0) ''fileName''
       = JString ''a.jpg''"
    using names [of 0] by (simp add: two_files_selected example_extracted mk_file_def)
  have n1: "obj_get (extractedData (ui (processInvoices
          (\<lambda>i. if i = 0 then env_ok else env_read_error) [1, 0] two_files)) ! 1) ''fileName''
       = JString ''b.jpg''"
    using names [of 1] by (simp add: two_files_selected example_extracted mk_file_def)
  have part: "\<not> {..< length (selectedFiles two_files)} \<subseteq> set [1]"
    by (auto simp: two_files_selected)
  have early: "extractedData (ui (processInvoices
          (\<lambda>i. if i = 0 then env_ok else env_read_error) [1] two_files)) = []"
    using inst [THEN conjunct2, THEN conjunct2, rule_format, OF part] by simp
  show ?thesis
    by (intro conjI ne two_files_complete a b len n0 n1 early)
qed

text \<open>
  The claim as first stated fails twice. A reply that carries a property named
  \<open>fileName\<close> overrides the name of the file, since the spread copies the properties of
  the reply after \<open>fileName\<close> is set. And a reply whose invoice number is a number makes
  the sanitizer throw inside the \<open>try\<close>, so that a run in which both tasks have
  completed leaves the result set empty.
\<close>

theorem processInvoices_records_in_input_order_counterexample:
  "map name (selectedFiles two_files) = [''a.jpg'', ''b.jpg'']
   \<and> {..< length (selectedFiles two_files)} \<subseteq> set [1, 0]
   \<and> map (\<lambda>r. obj_get r ''fileName'') (extractedData (ui (processInvoices
          (\<lambda>i. if i = 0 then env_named else env_read_error) [1, 0] two_files)))
       = [JString ''other.pdf'', JString ''b.jpg'']
   \<and> extractedData (ui (processInvoices
          (\<lambda>i. if i = 0 then env_numeric else env_read_error) [1, 0] two_files)) = []"
proof -
  have names: "map name (selectedFiles two_files) = [''a.jpg'', ''b.jpg'']"
    by (simp add: two_files_selected mk_file_def)
  have renamed: "map (\<lambda>r. obj_get r ''fileName'') (extractedData (ui (processInvoices
          (\<lambda>i. if i = 0 then env_named else env_read_error) [1, 0] two_files)))
       = [JString ''other.pdf'', JString ''b.jpg'']"
    by (simp only: example_run_renamed) (simp add: obj_get_def)
  show ?thesis
    by (intro conjI names two_files_complete renamed example_run_numeric(1))
qed

subsection \<open>Isolation of a failing file\<close>

text \<open>
  C2. If the task of the file at position \<open>i\<close> fails (read error, no decoded payload,
  or a gateway call that throws, as on every reply whose status is outside 200..299,
  429 among them), its promise resolves with the all-\<open>Error\<close> record carrying the
  file's name. The records the other promises resolve with do not depend on what the
  task at \<open>i\<close> met: they are the same under any environment that differs at \<open>i\<close> only.
  The sanitizer accepts the all-\<open>Error\<close> record, so the failure does not stop the
  sanitizer pass either: whenever the pass accepts the records of the other files, the
  result set has all \<open>k\<close> records, the one at \<open>i\<close> being the all-\<open>Error\<close> record with
  an empty invoice number and each other one the sanitized record of its own file.
\<close>

theorem processInvoices_failure_isolated:
  assumes "i < length (selectedFiles st)"
    and "{..< length (selectedFiles st)} \<subseteq> set schedule"
    and "task_fails (env i)"
  shows "slots (processInvoices env schedule st) ! i
           = Fulfilled [(''fileName'', JString (name (selectedFiles st ! i))),
                        (''invoiceNumber'', JString ''Error''),
                        (''companyNumber'', JString ''Error''), (''date'', JString ''Error''),
                        (''totalAmount'', JString ''Error'')]
       \<and> (\<forall>env'. (\<forall>j. j \<noteq> i \<longrightarrow> env' j = env j) \<longrightarrow>
            (\<forall>j < length (selectedFiles st). j \<noteq> i \<longrightarrow>
               slots (processInvoices env' schedule st) ! j
                 = slots (processInvoices env schedule st) ! j))
       \<and> ((\<forall>j < length (selectedFiles st). j \<noteq> i \<longrightarrow>
              \<not> sanitizer_throws (resolved_record (selectedFiles st ! j) (env j))) \<longrightarrow>
            length (extractedData (ui (processInvoices env schedule st)))
              = length (selectedFiles st)
            \<and> extractedData (ui (processInvoices env schedule st)) ! i
                = [(''fileName'', JString (name (selectedFiles st ! i))),
                   (''invoiceNumber'', JString []),
                   (''companyNumber'', JString ''Error''), (''date'', JString ''Error''),
                   (''totalAmount'', JString ''Error'')]
            \<and> (\<forall>j < length (selectedFiles st). j \<noteq> i \<longrightarrow>
                  sanitize_result (resolved_record (selectedFiles st ! j) (env j))
                    = Inr (extractedData (ui (processInvoices env schedule st)) ! j)))
       \<and> (\<forall>fetch_fn b r. fetch_fn b = Response r \<and> \<not> response_ok r \<longrightarrow>
            isl (extractInvoiceData fetch_fn b))
       \<and> (\<forall>r. status r = 429 \<longrightarrow> \<not> response_ok r)"
proof -
  have ne: "selectedFiles st \<noteq> []"
    using assms(1) by auto
  have rec: "resolved_record (selectedFiles st ! i) (env i)
      = error_record (name (selectedFiles st ! i))"
    by (rule resolved_record_fails [OF assms(3)])
  have slot_at: "slots (processInvoices e schedule st) ! j
      = Fulfilled (resolved_record (selectedFiles st ! j) (e j))"
    if "j < length (selectedFiles st)" for e j
    using that assms(2)
    by (auto simp: processInvoices_run_after [OF ne] run_after_def slots_when_nth)
  have slot: "slots (processInvoices env schedule st) ! i
      = Fulfilled [(''fileName'', JString (name (selectedFiles st ! i))),
                   (''invoiceNumber'', JString ''Error''),
                   (''companyNumber'', JString ''Error''), (''date'', JString ''Error''),
                   (''totalAmount'', JString ''Error'')]"
    using slot_at [OF assms(1), of env] by (simp add: rec error_record_def)
  have others: "slots (processInvoices env' schedule st) ! j
      = slots (processInvoices env schedule st) ! j"
    if "\<forall>j. j \<noteq> i \<longrightarrow> env' j = env j" and "j < length (selectedFiles st)" and "j \<noteq> i"
    for env' j
    using that by (simp add: slot_at)
  have pass: "length (extractedData (ui (processInvoices env schedule st)))
              = length (selectedFiles st)
            \<and> extractedData (ui (processInvoices env schedule st)) ! i
                = [(''fileName'', JString (name (selectedFiles st ! i))),
                   (''invoiceNumber'', JString []),
                   (''companyNumber'', JString ''Error''), (''date'', JString ''Error''),
                   (''totalAmount'', JString ''Error'')]
            \<and> (\<forall>j < length (selectedFiles st). j \<noteq> i \<longrightarrow>
                  sanitize_result (resolved_record (selectedFiles st ! j) (env j))
                    = Inr (extractedData (ui (processInvoices env schedule st)) ! j))"
    if rest: "\<forall>j < length (selectedFiles st). j \<noteq> i \<longrightarrow>
              \<not> sanitizer_throws (resolved_record (selectedFiles st ! j) (env j))"
  proof -
    have all: "\<forall>j < length (selectedFiles st).
        \<not> sanitizer_throws (resolved_record (selectedFiles st ! j) (env j))"
    proof (intro allI impI)
      fix j
      assume "j < length (selectedFiles st)"
      then show "\<not> sanitizer_throws (resolved_record (selectedFiles st ! j) (env j))"
        using rest rec error_record_accepted by (cases "j = i") simp_all
    qed
    note completed = run_complete_all_accepted [OF ne assms(2) all]
    have "sanitize_result (resolved_record (selectedFiles st ! i) (env i))
        = Inr (extractedData (ui (processInvoices env schedule st)) ! i)"
      using completed(2) assms(1) by simp
    then have "extractedData (ui (processInvoices env schedule st)) ! i
        = [(''fileName'', JString (name (selectedFiles st ! i))),
           (''invoiceNumber'', JString []),
           (''companyNumber'', JString ''Error''), (''date'', JString ''Error''),
           (''totalAmount'', JString ''Error'')]"
      by (simp add: rec sanitize_error_record)
    then show ?thesis
      using completed by simp
  qed
  have status: "\<not> response_ok r" if "status r = 429" for r
    using that by (simp add: response_ok_def)
  show ?thesis
    using slot others pass status extractInvoiceData_not_ok by blast
qed

theorem processInvoices_failure_isolated_witness:
  "1 < length (selectedFiles two_files)
   \<and> {..< length (selectedFiles two_files)} \<subseteq> set [1, 0]
   \<and> task_fails env_429
   \<and> \<not> sanitizer_throws (resolved_record (mk_file ''a.jpg'' 7) env_ok)
   \<and> slots (processInvoices (\<lambda>i. if i = 1 then env_429 else env_ok) [1, 0] two_files) ! 1
       = Fulfilled [(''fileName'', JString ''b.jpg''), (''invoiceNumber'', JString ''Error''),
                    (''companyNumber'', JString ''Error''), (''date'', JString ''Error''),
                    (''totalAmount'', JString ''Error'')]
   \<and> slots (processInvoices (\<lambda>i. if i = 1 then env_numeric else env_ok) [1, 0] two_files) ! 0
       = slots (processInvoices (\<lambda>i. if i = 1 then env_429 else env_ok) [1, 0] two_files) ! 0
   \<and> length (extractedData (ui (processInvoices
         (\<lambda>i. if i = 1 then env_429 else env_ok) [1, 0] two_files))) = 2
   \<and> extractedData (ui (processInvoices
         (\<lambda>i. if i = 1 then env_429 else env_ok) [1, 0] two_files)) ! 1
       = [(''fileName'', JString ''b.jpg''), (''invoiceNumber'', JString []),
          (''companyNumber'', JString ''Error''), (''date'', JString ''Error''),
          (''totalAmount'', JString ''Error'')]"
proof -
  have i: "1 < length (selectedFiles two_files)"
    by (simp add: two_files_selected)
  have fails: "task_fails env_429"
    by (simp add: task_fails_extracted example_extracted)
  have fails': "task_fails ((\<lambda>i. if i = 1 then env_429 else env_ok) (1::nat))"
    using fails by simp
  have a: "\<not> sanitizer_throws (resolved_record (mk_file ''a.jpg'' 7) env_ok)"
    by (simp add: sanitizer_throws_def example_records example_sanitized)
  note inst = processInvoices_failure_isolated
    [where i = 1 and st = two_files and schedule = "[1, 0]"
       and env = "\<lambda>i. if i = 1 then env_429 else env_ok", OF i two_files_complete fails']
  have name1: "name (selectedFiles two_files ! 1) = ''b.jpg''"
    by (simp add: two_files_selected mk_file_def)
  have slot: "slots (processInvoices (\<lambda>i. if i = 1 then env_429 else env_ok) [1, 0] two_files) ! 1
       = Fulfilled [(''fileName'', JString ''b.jpg''), (''invoiceNumber'', JString ''Error''),
                    (''companyNumber'', JString ''Error''), (''date'', JString ''Error''),
                    (''totalAmount'', JString ''Error'')]"
    using inst [THEN conjunct1] by (simp only: name1)
  have agree: "\<forall>j. j \<noteq> 1 \<longrightarrow>
      (\<lambda>i. if i = 1 then env_numeric else env_ok) j
        = (\<lambda>i::nat. if i = 1 then env_429 else env_ok) j"
    by simp
  have zero: "(0::nat) < length (selectedFiles two_files)" "(0::nat) \<noteq> 1"
    by (simp_all add: two_files_selected)
  have other: "slots (processInvoices (\<lambda>i. if i = 1 then env_numeric else env_ok) [1, 0] two_files) ! 0
       = slots (processInvoices (\<lambda>i. if i = 1 then env_429 else env_ok) [1, 0] two_files) ! 0"
    by (rule inst [THEN conjunct2, THEN conjunct1, rule_format, OF _ zero])
       (simp add: agree)
  have rest: "\<forall>j < length (selectedFiles two_files). j \<noteq> 1 \<longrightarrow>
      \<not> sanitizer_throws (resolved_record (selectedFiles two_files ! j)
          ((\<lambda>i. if i = 1 then env_429 else env_ok) j))"
    using a by (simp add: two_files_selected less_Suc_eq)
  note pass = inst [THEN conjunct2, THEN conjunct2, THEN conjunct1, THEN mp, OF rest]
  have len: "length (extractedData (ui (processInvoices
         (\<lambda>i. if i = 1 then env_429 else env_ok) [1, 0] two_files))) = 2"
    using pass [THEN conjunct1] by (simp add: two_files_selected)
  have data: "extractedData (ui (processInvoices
         (\<lambda>i. if i = 1 then env_429 else env_ok) [1, 0] two_files)) ! 1
       = [(''fileName'', JString ''b.jpg''), (''invoiceNumber'', JString []),
          (''companyNumber'', JString ''Error''), (''date'', JString ''Error''),
          (''totalAmount'', JString ''Error'')]"
    using pass [THEN conjunct2, THEN conjunct1] by (simp only: name1)
  show ?thesis
    by (intro conjI i two_files_complete fails a slot other len data)
qed

subsection \<open>Digits only\<close>

text \<open>
  C3. The invoice number of every record in the result set is a string of decimal
  digits, at every point of every run, provided it was before the run (the result set
  is empty when the component mounts). When a run completes, the sanitizer is applied
  to the invoice number of every resolved record; the result set is the list of the
  sanitized records, or stays empty if the sanitizer throws on one of them. On the
  sentinels \<open>Error\<close> and \<open>N/A\<close> the sanitizer yields the empty string.
\<close>

theorem processInvoices_invoiceNumber_digits_only:
  assumes "list_all invoice_number_digits (extractedData st)"
  shows "list_all invoice_number_digits (extractedData (ui (processInvoices env schedule st)))
       \<and> (selectedFiles st \<noteq> [] \<and> {..< length (selectedFiles st)} \<subseteq> set schedule \<longrightarrow>
            (\<exists>results. promise_all (slots (processInvoices env schedule st)) = Fulfilled results
               \<and> (case map_throwing sanitize_result results of
                     Inr sanitized \<Rightarrow>
                       extractedData (ui (processInvoices env schedule st)) = sanitized
                   | Inl err \<Rightarrow> extractedData (ui (processInvoices env schedule st)) = [])))
       \<and> sanitizeInvoiceNumber_js (JString ''Error'') = Inr []
       \<and> sanitizeInvoiceNumber_js (JString ''N/A'') = Inr []"
proof (intro conjI impI)
  show "list_all invoice_number_digits (extractedData (ui (processInvoices env schedule st)))"
  proof (cases "selectedFiles st = []")
    case True
    then show ?thesis
      using assms by (simp add: processInvoices_no_files)
  next
    case False
    show ?thesis
    proof (cases "{..< length (selectedFiles st)} \<subseteq> set schedule")
      case incomplete: False
      show ?thesis
        by (simp add: run_incomplete(1) [OF False incomplete])
    next
      case True
      show ?thesis
      proof (cases "map_throwing sanitize_result (resolved_records env (selectedFiles st))")
        case (Inl err)
        then show ?thesis
          by (simp add: run_complete_thrown(1) [OF False True])
      next
        case (Inr sanitized)
        have "invoice_number_digits r" if "r \<in> set sanitized" for r
        proof -
          from that obtain n where "n < length sanitized" and "r = sanitized ! n"
            by (auto simp: in_set_conv_nth)
          then show ?thesis
            using map_throwing_elements [OF Inr] sanitize_result_digits by metis
        qed
        then show ?thesis
          by (simp add: run_complete_accepted(1) [OF False True Inr] list_all_iff)
      qed
    qed
  qed
next
  assume a: "selectedFiles st \<noteq> [] \<and> {..< length (selectedFiles st)} \<subseteq> set schedule"
  then have ne: "selectedFiles st \<noteq> []"
    and all: "{..< length (selectedFiles st)} \<subseteq> set schedule"
    by simp_all
  have "case map_throwing sanitize_result (resolved_records env (selectedFiles st)) of
          Inr sanitized \<Rightarrow> extractedData (ui (processInvoices env schedule st)) = sanitized
        | Inl err \<Rightarrow> extractedData (ui (processInvoices env schedule st)) = []"
    using run_complete_accepted(1) [OF ne all] run_complete_thrown(1) [OF ne all]
    by (auto split: sum.split)
  then show "\<exists>results. promise_all (slots (processInvoices env schedule st)) = Fulfilled results
               \<and> (case map_throwing sanitize_result results of
                     Inr sanitized \<Rightarrow>
                       extractedData (ui (processInvoices env schedule st)) = sanitized
                   | Inl err \<Rightarrow> extractedData (ui (processInvoices env schedule st)) = [])"
    using run_complete_slots [OF ne all] by blast
next
  show "sanitizeInvoiceNumber_js (JString ''Error'') = Inr []"
    by (simp add: sanitizeInvoiceNumber_js_def sanitizeInvoiceNumber_def or_empty_def is_digit_def)
next
  show "sanitizeInvoiceNumber_js (JString ''N/A'') = Inr []"
    by (simp add: sanitizeInvoiceNumber_js_def sanitizeInvoiceNumber_def or_empty_def is_digit_def)
qed

theorem processInvoices_invoiceNumber_digits_only_witness:
  "list_all invoice_number_digits (extractedData two_files)
   \<and> selectedFiles two_files \<noteq> []
   \<and> {..< length (selectedFiles two_files)} \<subseteq> set [1, 0]
   \<and> list_all invoice_number_digits
        (extractedData (ui (processInvoices (\<lambda>i. if i = 0 then env_ok else env_read_error)
           [1, 0] two_files)))
   \<and> map (\<lambda>r. obj_get r ''invoiceNumber'')
        (extractedData (ui (processInvoices (\<lambda>i. if i = 0 then env_ok else env_read_error)
           [1, 0] two_files))) = [JString ''1001'', JString []]"
proof -
  have pre: "list_all invoice_number_digits (extractedData two_files)"
    by (simp add: two_files_def)
  have ne: "selectedFiles two_files \<noteq> []"
    by (simp add: two_files_selected)
  have inv: "list_all invoice_number_digits
        (extractedData (ui (processInvoices (\<lambda>i. if i = 0 then env_ok else env_read_error)
           [1, 0] two_files)))"
    using processInvoices_invoiceNumber_digits_only [OF pre] by (rule conjunct1)
  have res: "map (\<lambda>r. obj_get r ''invoiceNumber'')
        (extractedData (ui (processInvoices (\<lambda>i. if i = 0 then env_ok else env_read_error)
           [1, 0] two_files))) = [JString ''1001'', JString []]"
    by (simp only: example_run_out_of_order) (simp add: obj_get_def)
  show ?thesis
    by (intro conjI pre ne two_files_complete inv res)
qed

subsection \<open>No per-file outcome reaches the batch-level catch\<close>

text \<open>
  C9. The promise of a per-file task is fulfilled whatever the reader and the gateway
  do; no promise of a run is ever rejected, so their join is never rejected. The
  batch-level \<open>catch\<close> sets its message only when the sanitizer throws on the record of
  a task that did not fail: no read failure and no extraction failure leads there.
\<close>

theorem processingPromise_always_resolves:
  "(\<exists>v. processingPromise file e = Fulfilled v)
   \<and> (\<forall>err. Rejected err \<notin> set (slots (processInvoices env schedule st)))
   \<and> (\<forall>err. promise_all (slots (processInvoices env schedule st)) \<noteq> Rejected err)
   \<and> (error (ui (processInvoices env schedule st))
         = ''A critical error occurred while processing files. Please check the console.'' \<longrightarrow>
       (\<exists>i < length (selectedFiles st).
          \<not> task_fails (env i)
          \<and> sanitizer_throws (resolved_record (selectedFiles st ! i) (env i))))"
proof (intro conjI allI impI)
  show "\<exists>v. processingPromise file e = Fulfilled v"
    by (simp add: processingPromise_resolved)
next
  fix err
  show "Rejected err \<notin> set (slots (processInvoices env schedule st))"
  proof (cases "selectedFiles st = []")
    case True
    then show ?thesis by (simp add: processInvoices_no_files)
  next
    case False
    then show ?thesis
      by (auto simp: processInvoices_run_after run_after_def slots_when_def
          processingPromise_resolved)
  qed
next
  fix err
  show "promise_all (slots (processInvoices env schedule st)) \<noteq> Rejected err"
  proof (cases "selectedFiles st = []")
    case True
    then show ?thesis by (simp add: processInvoices_no_files)
  next
    case False
    then show ?thesis
      by (simp add: processInvoices_run_after run_after_def slots_when_promise_all)
  qed
next
  assume critical: "error (ui (processInvoices env schedule st))
      = ''A critical error occurred while processing files. Please check the console.''"
  have ne: "selectedFiles st \<noteq> []"
    using critical by (auto simp: processInvoices_no_files)
  have all: "{..< length (selectedFiles st)} \<subseteq> set schedule"
    using critical run_incomplete(3) [OF ne, of schedule env] by auto
  have "\<exists>i < length (selectedFiles st).
      sanitizer_throws (resolved_record (selectedFiles st ! i) (env i))"
  proof (rule ccontr)
    assume "\<not> (\<exists>i < length (selectedFiles st).
      sanitizer_throws (resolved_record (selectedFiles st ! i) (env i)))"
    then have "\<forall>i < length (selectedFiles st).
        \<not> sanitizer_throws (resolved_record (selectedFiles st ! i) (env i))"
      by simp
    then have "map_throwing sanitize_result (resolved_records env (selectedFiles st))
        = Inr (map (\<lambda>r. projr (sanitize_result r)) (resolved_records env (selectedFiles st)))"
      by (intro map_throwing_accepts) (simp add: resolved_records_accepted)
    from run_complete_accepted(3) [OF ne all this] critical show False
      by simp
  qed
  then obtain i where i: "i < length (selectedFiles st)"
    and throws: "sanitizer_throws (resolved_record (selectedFiles st ! i) (env i))"
    by blast
  have "\<not> task_fails (env i)"
    using throws resolved_record_fails [of "env i" "selectedFiles st ! i"] error_record_accepted
    by auto
  with i throws
  show "\<exists>i < length (selectedFiles st).
          \<not> task_fails (env i)
          \<and> sanitizer_throws (resolved_record (selectedFiles st ! i) (env i))"
    by blast
qed

theorem processingPromise_always_resolves_witness:
  "error (ui (processInvoices (\<lambda>i. if i = 0 then env_numeric else env_read_error) [1, 0] two_files))
     = ''A critical error occurred while processing files. Please check the console.''
   \<and> (\<exists>i < length (selectedFiles two_files).
         \<not> task_fails ((\<lambda>i. if i = 0 then env_numeric else env_read_error) i)
         \<and> sanitizer_throws (resolved_record (selectedFiles two_files ! i)
             ((\<lambda>i. if i = 0 then env_numeric else env_read_error) i)))
   \<and> task_fails env_read_error
   \<and> error (ui (processInvoices (\<lambda>i. env_read_error) [1, 0] two_files)) = []"
proof -
  note critical = example_run_numeric(2)
  have reached: "\<exists>i < length (selectedFiles two_files).
         \<not> task_fails ((\<lambda>i. if i = 0 then env_numeric else env_read_error) i)
         \<and> sanitizer_throws (resolved_record (selectedFiles two_files ! i)
             ((\<lambda>i. if i = 0 then env_numeric else env_read_error) i))"
    by (rule processingPromise_always_resolves
          [THEN conjunct2, THEN conjunct2, THEN conjunct2, THEN mp, OF critical])
  have fails: "task_fails env_read_error"
    by (simp add: task_fails_extracted example_extracted)
  have ne: "selectedFiles two_files \<noteq> []"
    by (simp add: two_files_selected)
  have accepted: "map_throwing sanitize_result
      (resolved_records (\<lambda>i. env_read_error) (selectedFiles two_files))
      = Inr (map (\<lambda>r. projr (sanitize_result r))
               (resolved_records (\<lambda>i. env_read_error) (selectedFiles two_files)))"
    by (intro map_throwing_accepts)
       (simp add: resolved_records_accepted resolved_record_fails [OF fails] error_record_accepted)
  have quiet: "error (ui (processInvoices (\<lambda>i. env_read_error) [1, 0] two_files)) = []"
    by (rule run_complete_accepted(3) [OF ne two_files_complete accepted])
  show ?thesis
    by (intro conjI critical reached fails quiet)
qed

section \<open>Properties of the export serializer\<close>










text \<open>
  C7. \<open>downloadExcel\<close> checks its preconditions in order. While the library is not
  defined it sets the "still loading" message; with the library defined and an empty
  result set it sets "No data to export.". Whenever either precondition fails, an
  error is set, no file is written and the result set is unchanged.
\<close>

theorem downloadExcel_preconditions:
  "(\<not> xlsx_defined \<longrightarrow>
      downloadExcel xlsx_defined st =
        (st\<lparr>error := ''Excel library is still loading. Please try again in a moment.''\<rparr>, None))
   \<and> (xlsx_defined \<and> extractedData st = [] \<longrightarrow>
      downloadExcel xlsx_defined st = (st\<lparr>error := ''No data to export.''\<rparr>, None))
   \<and> (\<not> xlsx_defined \<or> extractedData st = [] \<longrightarrow>
      snd (downloadExcel xlsx_defined st) = None
      \<and> extractedData (fst (downloadExcel xlsx_defined st)) = extractedData st
      \<and> error (fst (downloadExcel xlsx_defined st)) \<noteq> [])"
  by (simp add: downloadExcel_def)

theorem downloadExcel_preconditions_witness:
  "downloadExcel False example_results =
     (example_results\<lparr>error := ''Excel library is still loading. Please try again in a moment.''\<rparr>,
      None)
   \<and> extractedData initial_state = []
   \<and> downloadExcel True initial_state = (initial_state\<lparr>error := ''No data to export.''\<rparr>, None)
   \<and> extractedData (fst (downloadExcel False example_results)) = extractedData example_results"
proof -
  have empty: "extractedData initial_state = []"
    by (simp add: initial_state_def)
  show ?thesis
    using empty downloadExcel_preconditions [of False example_results]
      downloadExcel_preconditions [of True initial_state]
    by simp
qed

end
